theory Spec2Isabelle
  imports Complex_Main "HOL-Library.Word"
begin

section \<open>JavaScript values\<close>

text \<open>
  A JavaScript string is a sequence of UTF-16 code units. String literals of the source
  are written \<open>js ''...''\<close>.
\<close>

type_synonym jsstring = "16 word list"

definition js :: "string \<Rightarrow> jsstring" where
  "js s = map of_char s"

text \<open>
  What \<open>req.query\<close> can hold under a key: the query-string parser of Express yields a
  string, an array (a repeated key, or \<open>name[]=a\<close>) or a nested object
  (\<open>name[k]=a\<close>). An absent key reads as \<open>undefined\<close>, here \<open>None\<close>.
\<close>

datatype qvalue =
    QString jsstring
  | QArray "qvalue list"
  | QObject "(jsstring \<times> qvalue) list"

text \<open>JSON documents, as \<open>res.json\<close> and \<open>res.send\<close> serialise them. Numbers are the
  reals they denote.\<close>

datatype json =
    JString jsstring
  | JNumber real
  | JBool bool
  | JArray "json list"
  | JObject "(jsstring \<times> json) list"

fun json_of :: "qvalue \<Rightarrow> json" where
  "json_of (QString s) = JString s"
| "json_of (QArray vs) = JArray (map json_of vs)"
| "json_of (QObject kvs) = JObject (map (\<lambda>(k, v). (k, json_of v)) kvs)"

text \<open>The operand of \<open>!name\<close>: the empty string is falsy, every other string and every
  array or object is truthy (\<open>undefined\<close>, also falsy, is the absent key).\<close>

fun truthy :: "qvalue \<Rightarrow> bool" where
  "truthy (QString s) = (s \<noteq> [])"
| "truthy (QArray vs) = True"
| "truthy (QObject kvs) = True"

text \<open>An \<open>Error\<close> object: the two properties the error handler reads.\<close>

record fault =
  message :: jsstring
  stack :: jsstring

section \<open>Requests, responses and the process state\<close>

datatype http_method = GET | HEAD | POST | PUT | DELETE | PATCH | OPTIONS | OtherMethod string

record request =
  verb :: http_method
  path :: jsstring
  query :: "jsstring \<rightharpoonup> qvalue"

record response =
  status :: nat
  body :: json

text \<open>
  What the world outside \<open>server.js\<close> supplies with one request: the wall clock read by
  \<open>new Date()\<close> (milliseconds since the epoch), the advance of the monotonic clock behind
  \<open>process.uptime()\<close> since the previous request (nanoseconds), the error raised by
  \<open>express.json()\<close> on a body it rejects, the verdict of each \<open>express-rate-limit\<close>
  counter, and the text the engine stores in \<open>err.stack\<close> of an error thrown while the
  request is handled.
\<close>

record arrival =
  req :: request
  date_now :: int
  elapsed_ns :: nat
  body_fault :: "fault option"
  general_exceeded :: bool
  blacklist_exceeded :: bool
  trace :: jsstring

text \<open>
  The mutable state of the process: the contents of the array bound to
  \<open>blacklistedNames\<close> (a \<open>const\<close> binding to a mutable array), the monotonic clock, and
  what \<open>console.error\<close> has written.
\<close>

record server_state =
  blacklist_array :: "jsstring list"
  uptime_ns :: nat
  stderr :: "jsstring list"

text \<open>What one middleware function does: it answers, throws, or calls \<open>next()\<close>.\<close>

datatype action = Respond response | Throw fault | CallNext

type_synonym handler = "arrival \<Rightarrow> server_state \<Rightarrow> action \<times> server_state"

type_synonym error_handler = "fault \<Rightarrow> arrival \<Rightarrow> server_state \<Rightarrow> action \<times> server_state"

text \<open>
  The parts of the platform the source relies on and does not define:
  \<open>String.prototype.toLowerCase\<close> (the Unicode case tables of the engine),
  \<open>decodeURIComponent\<close> (\<open>None\<close> where it throws a \<open>URIError\<close>), the document
  \<open>swaggerJsdoc\<close> builds, and the middleware \<open>swagger-ui-express\<close> mounts.
\<close>

record platform =
  toLowerCase :: "jsstring \<Rightarrow> jsstring"
  decodeURIComponent :: "jsstring \<Rightarrow> jsstring option"
  swaggerSpec :: json
  swaggerUi :: "request \<Rightarrow> action"

section \<open>Date.prototype.toISOString\<close>

text \<open>
  The time value of a \<open>Date\<close> is split into days and time within the day; the year is
  found by walking whole years from 1970, the month and day of the month by walking
  the months of that year. The result is \<open>YYYY-MM-DDTHH:mm:ss.sssZ\<close>, with a sign and six
  digits for a year outside 0 to 9999.
\<close>

definition msPerDay :: int where
  "msPerDay = 86400000"

definition DaysInYear :: "int \<Rightarrow> int" where
  "DaysInYear y =
     (if y mod 4 \<noteq> 0 then 365
      else if y mod 100 \<noteq> 0 then 366
      else if y mod 400 \<noteq> 0 then 365
      else 366)"

function year_walk :: "int \<Rightarrow> int \<Rightarrow> int \<times> int" where
  "year_walk y d =
     (if d < 0 then year_walk (y - 1) (d + DaysInYear (y - 1))
      else if DaysInYear y \<le> d then year_walk (y + 1) (d - DaysInYear y)
      else (y, d))"
  by pat_completeness auto
termination
  by (relation "measure (\<lambda>(y, d). if d < 0 then 400 + nat (- d) else nat d)")
     (auto simp: DaysInYear_def)

declare year_walk.simps [simp del]

definition month_lengths :: "int \<Rightarrow> nat list" where
  "month_lengths y =
     [31, if DaysInYear y = 366 then 29 else 28, 31, 30, 31, 30, 31, 31, 30, 31, 30, 31]"

fun month_walk :: "nat \<Rightarrow> nat \<Rightarrow> nat list \<Rightarrow> nat \<times> nat" where
  "month_walk m d [] = (m, d)"
| "month_walk m d (l # ls) = (if d < l then (m, d) else month_walk (Suc m) (d - l) ls)"

definition digit :: "nat \<Rightarrow> 16 word" where
  "digit n = 0x30 + of_nat (n mod 10)"

fun pad :: "nat \<Rightarrow> nat \<Rightarrow> jsstring" where
  "pad 0 n = []"
| "pad (Suc w) n = pad w (n div 10) @ [digit n]"

definition year_text :: "int \<Rightarrow> jsstring" where
  "year_text y =
     (if 0 \<le> y \<and> y \<le> 9999 then pad 4 (nat y)
      else (if 0 \<le> y then js ''+'' else js ''-'') @ pad 6 (nat \<bar>y\<bar>))"

definition toISOString :: "int \<Rightarrow> jsstring" where
  "toISOString t =
     (let (y, doy) = year_walk 1970 (t div msPerDay);
          (m, d) = month_walk 0 (nat doy) (month_lengths y);
          ms = nat (t mod msPerDay)
      in year_text y @ js ''-'' @ pad 2 (Suc m) @ js ''-'' @ pad 2 (Suc d) @ js ''T''
         @ pad 2 (ms div 3600000) @ js '':'' @ pad 2 (ms div 60000 mod 60) @ js '':''
         @ pad 2 (ms div 1000 mod 60) @ js ''.'' @ pad 3 (ms mod 1000) @ js ''Z'')"

text \<open>
  What an ISO-8601 instant in UTC with millisecond precision looks like:
  \<open>YYYY-MM-DDTHH:mm:ss.sssZ\<close>, all digits where digits stand, a month from 01 to 12, a
  day that exists in that month of that year, hours up to 23, minutes and seconds up to 59.
\<close>

definition is_digit :: "16 word \<Rightarrow> bool" where
  "is_digit c = (0x30 \<le> c \<and> c \<le> 0x39)"

text \<open>The number a string of decimal digits denotes.\<close>

definition decimal :: "jsstring \<Rightarrow> nat" where
  "decimal cs = foldl (\<lambda>n c. 10 * n + (unat c - 48)) 0 cs"

text \<open>The \<open>n\<close> code units from position \<open>i\<close> on.\<close>

definition field :: "nat \<Rightarrow> nat \<Rightarrow> jsstring \<Rightarrow> jsstring" where
  "field i n s = take n (drop i s)"

definition iso_instant :: "jsstring \<Rightarrow> bool" where
  "iso_instant s =
     (length s = 24
      \<and> list_all is_digit (field 0 4 s) \<and> field 4 1 s = js ''-''
      \<and> list_all is_digit (field 5 2 s) \<and> field 7 1 s = js ''-''
      \<and> list_all is_digit (field 8 2 s) \<and> field 10 1 s = js ''T''
      \<and> list_all is_digit (field 11 2 s) \<and> field 13 1 s = js '':''
      \<and> list_all is_digit (field 14 2 s) \<and> field 16 1 s = js '':''
      \<and> list_all is_digit (field 17 2 s) \<and> field 19 1 s = js ''.''
      \<and> list_all is_digit (field 20 3 s) \<and> field 23 1 s = js ''Z''
      \<and> 1 \<le> decimal (field 5 2 s) \<and> decimal (field 5 2 s) \<le> 12
      \<and> 1 \<le> decimal (field 8 2 s)
      \<and> decimal (field 8 2 s)
          \<le> month_lengths (int (decimal (field 0 4 s))) ! (decimal (field 5 2 s) - 1)
      \<and> decimal (field 11 2 s) \<le> 23
      \<and> decimal (field 14 2 s) \<le> 59
      \<and> decimal (field 17 2 s) \<le> 59)"

text \<open>The number of days from 1 January 1970 to 1 January of the year \<open>y\<close>.\<close>

definition DayFromYear :: "int \<Rightarrow> int" where
  "DayFromYear y =
     365 * (y - 1970) + (y - 1969) div 4 - (y - 1901) div 100 + (y - 1601) div 400"

section \<open>Route matching\<close>

text \<open>
  Express compiles a route path to a regular expression with its defaults: letter case
  is ignored (over the letters A to Z only) and one trailing slash is allowed.
  \<open>app.get\<close> serves GET and, with no HEAD handler of its own, HEAD. \<open>app.use\<close> with a
  path serves every method at that path and below it; \<open>app.use\<close> with no path serves
  every request. \<open>app.use\<close> with \<open>'*'\<close> serves every request too, and binds the whole
  path, percent-decoded, as a route parameter: a path that does not decode raises the
  \<open>URIError\<close>, with Express's message in place of the engine's.
\<close>

definition lower_unit :: "16 word \<Rightarrow> 16 word" where
  "lower_unit c = (if 0x41 \<le> c \<and> c \<le> 0x5A then c + 0x20 else c)"

definition path_is :: "string \<Rightarrow> jsstring \<Rightarrow> bool" where
  "path_is pat p =
     (let q = map lower_unit p; r = map lower_unit (js pat) in q = r \<or> q = r @ js ''/'')"

definition path_under :: "string \<Rightarrow> jsstring \<Rightarrow> bool" where
  "path_under pat p =
     (let q = map lower_unit p; r = map lower_unit (js pat)
      in q = r \<or> take (length r + 1) q = r @ js ''/'')"

definition handles_get :: "http_method \<Rightarrow> bool" where
  "handles_get m = (m = GET \<or> m = HEAD)"

datatype layer =
    Get string handler
  | UsePath string handler
  | Use handler
  | UseStar "jsstring \<Rightarrow> jsstring option" handler
  | UseError error_handler

fun layer_match :: "layer \<Rightarrow> arrival \<Rightarrow> fault + bool" where
  "layer_match (Get pat h) a = Inr (handles_get (verb (req a)) \<and> path_is pat (path (req a)))"
| "layer_match (UsePath pat h) a = Inr (path_under pat (path (req a)))"
| "layer_match (Use h) a = Inr True"
| "layer_match (UseStar decode h) a =
     (case decode (path (req a)) of
        None \<Rightarrow> Inl \<lparr>message = js ''Failed to decode param '' @ [0x27] @ path (req a) @ [0x27],
                       stack = trace a\<rparr>
      | Some p \<Rightarrow> Inr True)"
| "layer_match (UseError h) a = Inr True"

fun handler_of :: "layer \<Rightarrow> handler" where
  "handler_of (Get pat h) = h"
| "handler_of (UsePath pat h) = h"
| "handler_of (Use h) = h"
| "handler_of (UseStar decode h) = h"
| "handler_of (UseError h) = (\<lambda>a s. (CallNext, s))"

text \<open>
  What becomes of a request: a middleware answered it, or the stack ran out and
  Express's own final handler takes over (with the pending error, if any).
\<close>

datatype outcome = Answered response | Unhandled "fault option"

text \<open>
  The walk down the middleware stack. With no error pending, the next matching ordinary
  layer runs and error handlers are skipped; once a layer has thrown, or matching a layer
  has, ordinary layers are skipped and the next error handler runs.
\<close>

fun dispatch :: "layer list \<Rightarrow> fault option \<Rightarrow> arrival \<Rightarrow> server_state \<Rightarrow> outcome \<times> server_state" where
  "dispatch [] pending a s = (Unhandled pending, s)"
| "dispatch (UseError h # ls) None a s = dispatch ls None a s"
| "dispatch (UseError h # ls) (Some e) a s =
     (case h e a s of
        (Respond r, s') \<Rightarrow> (Answered r, s')
      | (Throw e', s') \<Rightarrow> dispatch ls (Some e') a s'
      | (CallNext, s') \<Rightarrow> dispatch ls None a s')"
| "dispatch (l # ls) (Some e) a s = dispatch ls (Some e) a s"
| "dispatch (l # ls) None a s =
     (case layer_match l a of
        Inl e \<Rightarrow> dispatch ls (Some e) a s
      | Inr matched \<Rightarrow>
          if matched then
            (case handler_of l a s of
               (Respond r, s') \<Rightarrow> (Answered r, s')
             | (Throw e, s') \<Rightarrow> dispatch ls (Some e) a s'
             | (CallNext, s') \<Rightarrow> dispatch ls None a s')
          else dispatch ls None a s)"

text \<open>Several handlers on one route run in turn: \<open>app.get(path, first, second)\<close>.\<close>

definition chain :: "handler \<Rightarrow> handler \<Rightarrow> handler" where
  "chain first second a s =
     (case first a s of (CallNext, s') \<Rightarrow> second a s' | other \<Rightarrow> other)"

section \<open>The middleware of server.js\<close>

text \<open>\<open>express.json()\<close> passes the request on, or raises what the body parser reports.\<close>

definition express_json :: handler where
  "express_json a s =
     (case body_fault a of None \<Rightarrow> (CallNext, s) | Some e \<Rightarrow> (Throw e, s))"

text \<open>A limiter made by \<open>rateLimit\<close> answers 429 with its configured message once its
  counter is exceeded, and passes the request on otherwise.\<close>

definition rateLimit :: "json \<Rightarrow> (arrival \<Rightarrow> bool) \<Rightarrow> handler" where
  "rateLimit msg exceeded a s =
     (if exceeded a then (Respond \<lparr>status = 429, body = msg\<rparr>, s) else (CallNext, s))"

definition generalLimiter :: handler where
  "generalLimiter =
     rateLimit (JObject [(js ''error'', JString (js ''Too many requests from this IP'')),
                         (js ''retryAfter'', JString (js ''15 minutes''))])
       general_exceeded"

definition blacklistLimiter :: handler where
  "blacklistLimiter =
     rateLimit (JObject [(js ''error'', JString (js ''Too many blacklist requests from this IP'')),
                         (js ''retryAfter'', JString (js ''1 minute''))])
       blacklist_exceeded"

definition swagger_ui :: "platform \<Rightarrow> handler" where
  "swagger_ui pf a s = (swaggerUi pf (req a), s)"

definition api_docs_json :: "platform \<Rightarrow> handler" where
  "api_docs_json pf a s = (Respond \<lparr>status = 200, body = swaggerSpec pf\<rparr>, s)"

text \<open>The array literal of the source.\<close>

definition blacklistedNames :: "jsstring list" where
  "blacklistedNames =
     [js ''John Smith'', js ''Jane Doe'', js ''Mike Johnson'', js ''Sarah Wilson'',
      js ''Robert Brown'', js ''Emily Davis'', js ''David Miller'', js ''Lisa Garcia'',
      js ''James Rodriguez'', js ''Maria Martinez'']"

definition health :: handler where
  "health a s =
     (Respond \<lparr>status = 200,
        body = JObject [(js ''status'', JString (js ''healthy'')),
                        (js ''timestamp'', JString (toISOString (date_now a))),
                        (js ''uptime'', JNumber (real (uptime_ns s) / 10 ^ 9)),
                        (js ''service'', JString (js ''blacklisted-mock-api-server''))]\<rparr>, s)"

text \<open>
  \<open>blacklistedNames.some(b => b.toLowerCase() === name.toLowerCase())\<close>: the callback
  runs on each element until one matches. On a \<open>name\<close> that is not a string,
  \<open>name.toLowerCase\<close> is not a function and the first call of the callback throws a
  \<open>TypeError\<close>.
\<close>

fun some_equal :: "(jsstring \<Rightarrow> jsstring) \<Rightarrow> jsstring \<Rightarrow> jsstring list \<Rightarrow> qvalue \<Rightarrow> fault + bool" where
  "some_equal lc tr [] v = Inr False"
| "some_equal lc tr (b # bs) (QString n) =
     (if lc b = lc n then Inr True else some_equal lc tr bs (QString n))"
| "some_equal lc tr (b # bs) v =
     Inl \<lparr>message = js ''name.toLowerCase is not a function'', stack = tr\<rparr>"

definition blacklisted :: "platform \<Rightarrow> handler" where
  "blacklisted pf a s =
     (let all_names =
            \<lparr>status = 200,
             body = JObject [(js ''blacklistedNames'', JArray (map JString (blacklist_array s))),
                             (js ''count'', JNumber (real (length (blacklist_array s))))]\<rparr>
      in case query (req a) (js ''name'') of
           None \<Rightarrow> (Respond all_names, s)
         | Some name \<Rightarrow>
             if \<not> truthy name then (Respond all_names, s)
             else
               (case some_equal (toLowerCase pf) (trace a) (blacklist_array s) name of
                  Inl e \<Rightarrow> (Throw e, s)
                | Inr isBlacklisted \<Rightarrow>
                    (Respond \<lparr>status = 200,
                       body = JObject [(js ''name'', json_of name),
                                       (js ''isBlacklisted'', JBool isBlacklisted)]\<rparr>, s)))"

definition not_found :: handler where
  "not_found a s =
     (Respond \<lparr>status = 404,
        body = JObject [(js ''error'', JString (js ''Endpoint not found'')),
                        (js ''availableEndpoints'',
                         JArray [JString (js ''GET /health''),
                                 JString (js ''GET /blacklisted''),
                                 JString (js ''GET /blacklisted?name=<name>'')])]\<rparr>, s)"

definition error_handler :: error_handler where
  "error_handler err a s =
     (Respond \<lparr>status = 500,
        body = JObject [(js ''error'', JString (js ''Internal server error'')),
                        (js ''message'', JString (message err))]\<rparr>,
      s\<lparr>stderr := stderr s @ [stack err]\<rparr>)"

section \<open>The two applications\<close>

text \<open>\<open>server.js\<close>, with rate limiting and documentation.\<close>

definition app_full :: "platform \<Rightarrow> layer list" where
  "app_full pf =
     [Use express_json,
      Use generalLimiter,
      UsePath ''/api-docs'' (swagger_ui pf),
      Get ''/api-docs.json'' (api_docs_json pf),
      Get ''/health'' health,
      Get ''/blacklisted'' (chain blacklistLimiter (blacklisted pf)),
      UseStar (decodeURIComponent pf) not_found,
      UseError error_handler]"

text \<open>The second source file, without them.\<close>

definition app_minimal :: "platform \<Rightarrow> layer list" where
  "app_minimal pf =
     [Use express_json,
      Get ''/health'' health,
      Get ''/blacklisted'' (blacklisted pf),
      UseStar (decodeURIComponent pf) not_found,
      UseError error_handler]"

text \<open>The state when the process starts: the array as its literal fills it, the clock at
  zero, nothing written to the console.\<close>

definition initial_state :: server_state where
  "initial_state = \<lparr>blacklist_array = blacklistedNames, uptime_ns = 0, stderr = []\<rparr>"

text \<open>One request: the monotonic clock has advanced, then the stack is walked.\<close>

definition serve :: "layer list \<Rightarrow> arrival \<Rightarrow> server_state \<Rightarrow> outcome \<times> server_state" where
  "serve app a s = dispatch app None a (s\<lparr>uptime_ns := uptime_ns s + elapsed_ns a\<rparr>)"

text \<open>A process lifetime: requests served one after another from the initial state.\<close>

fun run :: "layer list \<Rightarrow> arrival list \<Rightarrow> server_state \<Rightarrow> outcome list \<times> server_state" where
  "run app [] s = ([], s)"
| "run app (a # as) s =
     (let (out, s') = serve app a s; (outs, s'') = run app as s' in (out # outs, s''))"

section \<open>Example inputs\<close>

text \<open>
  A platform to evaluate examples on. It agrees with the engine on the strings of the
  examples: \<open>toLowerCase\<close> on letters A to Z, digits and punctuation;
  \<open>decodeURIComponent\<close> on strings without a percent sign, which it returns, and on
  \<open>%zz\<close>, which it rejects (as it does every percent sign). The API document is empty;
  the documentation middleware passes every request on.
\<close>

definition sample_platform :: platform where
  "sample_platform =
     \<lparr>toLowerCase = map lower_unit,
      decodeURIComponent = (\<lambda>p. if 0x25 \<in> set p then None else Some p),
      swaggerSpec = JObject [], swaggerUi = (\<lambda>r. CallNext)\<rparr>"


text \<open>A request with an accepted body, under both rate limits.\<close>

definition plain_arrival :: "http_method \<Rightarrow> string \<Rightarrow> (jsstring \<rightharpoonup> qvalue) \<Rightarrow> int \<Rightarrow> arrival" where
  "plain_arrival m p q now =
     \<lparr>req = \<lparr>verb = m, path = js p, query = q\<rparr>, date_now = now, elapsed_ns = 1500000000,
      body_fault = None, general_exceeded = False, blacklist_exceeded = False,
      trace = js ''TypeError: name.toLowerCase is not a function''\<rparr>"

section \<open>What the handlers leave alone\<close>

text \<open>A handler that at most writes to the console.\<close>

definition only_logs :: "server_state \<Rightarrow> server_state \<Rightarrow> bool" where
  "only_logs s s' = (blacklist_array s' = blacklist_array s \<and> uptime_ns s' = uptime_ns s)"

text \<open>Every handler of a layer keeps a property of the state.\<close>

definition layer_keeps :: "(server_state \<Rightarrow> bool) \<Rightarrow> layer \<Rightarrow> bool" where
  "layer_keeps P l =
     (case l of
        Get pat h \<Rightarrow> (\<forall>a s. P s \<longrightarrow> P (snd (h a s)))
      | UsePath pat h \<Rightarrow> (\<forall>a s. P s \<longrightarrow> P (snd (h a s)))
      | Use h \<Rightarrow> (\<forall>a s. P s \<longrightarrow> P (snd (h a s)))
      | UseStar decode h \<Rightarrow> (\<forall>a s. P s \<longrightarrow> P (snd (h a s)))
      | UseError h \<Rightarrow> (\<forall>e a s. P s \<longrightarrow> P (snd (h e a s))))"

lemma express_json_only_logs: "only_logs s (snd (express_json a s))"
  by (simp add: only_logs_def express_json_def split: option.splits)

lemma limiters_only_log:  "only_logs s (snd (generalLimiter a s))"
  "only_logs s (snd (blacklistLimiter a s))"
  by (simp_all add: only_logs_def generalLimiter_def blacklistLimiter_def rateLimit_def)

lemma plain_handlers_only_log:
  "only_logs s (snd (swagger_ui pf a s))"
  "only_logs s (snd (api_docs_json pf a s))"
  "only_logs s (snd (health a s))"
  "only_logs s (snd (not_found a s))"
  "only_logs s (snd (error_handler e a s))"
  by (simp_all add: only_logs_def swagger_ui_def api_docs_json_def health_def not_found_def
      error_handler_def)

lemma blacklisted_only_logs:
  "only_logs s (snd (blacklisted pf a s))"
  by (simp add: only_logs_def blacklisted_def Let_def split: option.splits sum.splits)


lemma chain_only_logs:
  assumes "\<And>a s. only_logs s (snd (f a s))" and "\<And>a s. only_logs s (snd (g a s))"
  shows "only_logs s (snd (chain f g a s))"
proof (cases "f a s")
  case (Pair act s')
  have 1: "only_logs s s'" using assms(1)[of s a] Pair by simp
  have 2: "only_logs s' (snd (g a s'))" by (rule assms(2))
  from 1 2 Pair show ?thesis
    by (cases act) (auto simp: chain_def only_logs_def)
qed

lemma keeps_handler:
  assumes "\<forall>s s'. only_logs s s' \<longrightarrow> P s \<longrightarrow> P s'"
    and "\<And>a s. only_logs s (snd (h a s))"
  shows "layer_keeps P (Get pat h)" and "layer_keeps P (UsePath pat h)"
    and "layer_keeps P (Use h)" and "layer_keeps P (UseStar decode h)"
  using assms by (simp_all add: layer_keeps_def) blast+

lemma keeps_error_handler:
  assumes "\<forall>s s'. only_logs s s' \<longrightarrow> P s \<longrightarrow> P s'"
    and "\<And>e a s. only_logs s (snd (h e a s))"
  shows "layer_keeps P (UseError h)"
  using assms by (simp add: layer_keeps_def) blast

lemma app_layers_keep:
  assumes P: "\<forall>s s'. only_logs s s' \<longrightarrow> P s \<longrightarrow> P s'"
  shows "\<forall>l\<in>set (app_full pf). layer_keeps P l" and "\<forall>l\<in>set (app_minimal pf). layer_keeps P l"
proof -
  note k = keeps_handler[OF P]
  have 1: "layer_keeps P (Use express_json)" by (rule k(3)) (rule express_json_only_logs)
  have 2: "layer_keeps P (Use generalLimiter)" by (rule k(3)) (rule limiters_only_log)
  have 3: "layer_keeps P (UsePath ''/api-docs'' (swagger_ui pf))" by (rule k(2)) (rule plain_handlers_only_log)
  have 4: "layer_keeps P (Get ''/api-docs.json'' (api_docs_json pf))" by (rule k(1)) (rule plain_handlers_only_log)
  have 5: "layer_keeps P (Get ''/health'' health)" by (rule k(1)) (rule plain_handlers_only_log)
  have 6: "layer_keeps P (Get ''/blacklisted'' (chain blacklistLimiter (blacklisted pf)))"
    by (rule k(1)) (rule chain_only_logs, rule limiters_only_log, rule blacklisted_only_logs)
  have 7: "layer_keeps P (Get ''/blacklisted'' (blacklisted pf))" by (rule k(1)) (rule blacklisted_only_logs)
  have 8: "layer_keeps P (UseStar (decodeURIComponent pf) not_found)"
    by (rule k(4)) (rule plain_handlers_only_log)
  have 9: "layer_keeps P (UseError error_handler)"
    by (rule keeps_error_handler[OF P]) (rule plain_handlers_only_log)
  show "\<forall>l\<in>set (app_full pf). layer_keeps P l"
    using 1 2 3 4 5 6 8 9 by (simp add: app_full_def)
  show "\<forall>l\<in>set (app_minimal pf). layer_keeps P l"
    using 1 5 7 8 9 by (simp add: app_minimal_def)
qed


lemma some_equal_string:
  "some_equal lc tr bs (QString n) = Inr (\<exists>b\<in>set bs. lc b = lc n)"
  by (induction bs) auto

lemma some_equal_other:
  assumes "bs \<noteq> []" and "\<And>n. v \<noteq> QString n"
  shows "some_equal lc tr bs v = Inl \<lparr>message = js ''name.toLowerCase is not a function'', stack = tr\<rparr>"
  using assms by (cases bs; cases v) auto

lemma dispatch_keeps:
  assumes "\<forall>l\<in>set ls. layer_keeps P l" and "P s"
  shows "P (snd (dispatch ls pending a s))"
  using assms
proof (induction ls arbitrary: pending s)
  case Nil
  then show ?case by simp
next
  case (Cons l ls)
  have IH: "P (snd (dispatch ls q a s'))" if "P s'" for q s'
    using Cons.IH[of s' q] Cons.prems(1) that by simp
  have step: "P (snd (case h a s of
                        (Respond r, s') \<Rightarrow> (Answered r, s')
                      | (Throw e, s') \<Rightarrow> dispatch ls (Some e) a s'
                      | (CallNext, s') \<Rightarrow> dispatch ls None a s'))"
    if "P (snd (h a s))" for h :: handler
    using that IH by (cases "h a s") (auto split: action.splits)
  show ?case
  proof (cases l)
    case (UseError h)
    show ?thesis
    proof (cases pending)
      case None
      then show ?thesis
        using UseError IH[OF Cons.prems(2)] by simp
    next
      case (Some e)
      have "P (snd (h e a s))"
        using Cons.prems UseError by (simp add: layer_keeps_def)
      then show ?thesis
        using UseError Some IH by (cases "h e a s") (auto split: action.splits)
    qed
  next
    case (Get pat h)
    have "P (snd (h a s))"
      using Cons.prems Get by (simp add: layer_keeps_def)
    then show ?thesis
      using Get step[of h] IH[OF Cons.prems(2)] by (cases pending) auto
  next
    case (UsePath pat h)
    have "P (snd (h a s))"
      using Cons.prems UsePath by (simp add: layer_keeps_def)
    then show ?thesis
      using UsePath step[of h] IH[OF Cons.prems(2)] by (cases pending) auto
  next
    case (Use h)
    have "P (snd (h a s))"
      using Cons.prems Use by (simp add: layer_keeps_def)
    then show ?thesis
      using Use step[of h] IH[OF Cons.prems(2)] by (cases pending) auto
  next
    case (UseStar decode h)
    have "P (snd (h a s))"
      using Cons.prems UseStar by (simp add: layer_keeps_def)
    then show ?thesis
      using UseStar step[of h] IH[OF Cons.prems(2)]
      by (cases pending) (auto split: option.splits)
  qed
qed

lemma run_keeps:
  assumes "\<forall>l\<in>set app. layer_keeps P l"
    and "\<And>s k. P s \<Longrightarrow> P (s\<lparr>uptime_ns := uptime_ns s + k\<rparr>)"
    and "P s"
  shows "P (snd (run app as s))"
  using assms(3)
proof (induction as arbitrary: s)
  case Nil
  then show ?case by simp
next
  case (Cons a as)
  have "P (s\<lparr>uptime_ns := uptime_ns s + elapsed_ns a\<rparr>)"
    using Cons.prems by (rule assms(2))
  with assms(1) have "P (snd (serve app a s))"
    unfolding serve_def by (rule dispatch_keeps)
  then have "P (snd (run app as (snd (serve app a s))))"
    by (rule Cons.IH)
  then show ?case
    by (simp add: split_beta)
qed

lemma reachable_blacklist:
  assumes "app = app_full pf \<or> app = app_minimal pf"
  shows "blacklist_array (snd (run app as initial_state)) = blacklistedNames"
proof -
  let ?P = "\<lambda>s. blacklist_array s = blacklistedNames"
  have "\<forall>l\<in>set app. layer_keeps ?P l"
    using assms app_layers_keep[of ?P pf] by (auto simp: only_logs_def)
  then show ?thesis
    by (rule run_keeps) (simp_all add: initial_state_def)
qed

lemmas routing = handles_get_def path_is_def path_under_def js_def lower_unit_def

lemma full_routes_blacklisted:
  assumes "verb (req a) = GET" and "path (req a) = js ''/blacklisted''"
    and "body_fault a = None" and "\<not> general_exceeded a" and "\<not> blacklist_exceeded a"
  shows "dispatch (app_full pf) None a s =
     (case blacklisted pf a s of
        (Respond r, s') \<Rightarrow> (Answered r, s')
      | (Throw e, s') \<Rightarrow> dispatch [UseError error_handler] (Some e) a s'
      | (CallNext, s') \<Rightarrow> dispatch [UseStar (decodeURIComponent pf) not_found, UseError error_handler] None a s')"
  using assms
  by (simp add: app_full_def routing express_json_def generalLimiter_def blacklistLimiter_def
      rateLimit_def chain_def split: prod.splits action.splits)

lemma minimal_routes_blacklisted:
  assumes "verb (req a) = GET" and "path (req a) = js ''/blacklisted''"
    and "body_fault a = None"
  shows "dispatch (app_minimal pf) None a s =
     (case blacklisted pf a s of
        (Respond r, s') \<Rightarrow> (Answered r, s')
      | (Throw e, s') \<Rightarrow> dispatch [UseError error_handler] (Some e) a s'
      | (CallNext, s') \<Rightarrow> dispatch [UseStar (decodeURIComponent pf) not_found, UseError error_handler] None a s')"
  using assms
  by (simp add: app_minimal_def routing express_json_def split: prod.splits action.splits)

lemma serve_blacklisted_route:
  assumes "app = app_full pf \<or> app = app_minimal pf"
    and "verb (req a) = GET" and "path (req a) = js ''/blacklisted''"
    and "body_fault a = None" and "\<not> general_exceeded a" and "\<not> blacklist_exceeded a"
  shows "serve app a s =
     (case blacklisted pf a (s\<lparr>uptime_ns := uptime_ns s + elapsed_ns a\<rparr>) of
        (Respond r, s') \<Rightarrow> (Answered r, s')
      | (Throw e, s') \<Rightarrow> dispatch [UseError error_handler] (Some e) a s'
      | (CallNext, s') \<Rightarrow> dispatch [UseStar (decodeURIComponent pf) not_found, UseError error_handler] None a s')"
  using assms full_routes_blacklisted[of a pf] minimal_routes_blacklisted[of a pf]
  by (auto simp: serve_def)

lemma listing_when_no_name:
  assumes "app = app_full pf \<or> app = app_minimal pf"
    and "verb (req a) = GET" and "path (req a) = js ''/blacklisted''"
    and "query (req a) (js ''name'') = None \<or> query (req a) (js ''name'') = Some (QString [])"
    and "body_fault a = None" and "\<not> general_exceeded a" and "\<not> blacklist_exceeded a"
  shows "fst (serve app a s) =
           Answered \<lparr>status = 200,
             body = JObject [(js ''blacklistedNames'', JArray (map JString (blacklist_array s))),
                             (js ''count'', JNumber (real (length (blacklist_array s))))]\<rparr>"
  using assms(4)
  by (auto simp: serve_blacklisted_route[OF assms(1,2,3,5,6,7)] blacklisted_def)

lemma run_nth:
  "i < length as \<Longrightarrow>
   fst (run app as s) ! i = fst (serve app (as ! i) (snd (run app (take i as) s)))"
proof (induction as arbitrary: i s)
  case Nil
  then show ?case by simp
next
  case (Cons a as)
  show ?case
  proof (cases i)
    case 0
    then show ?thesis by (simp add: split_beta)
  next
    case (Suc j)
    with Cons.prems have "j < length as" by simp
    from Cons.IH[OF this, of "snd (serve app a s)"] Suc show ?thesis
      by (simp add: split_beta)
  qed
qed

lemma handlers_keep_blacklist:
  "blacklist_array (snd (health a s)) = blacklist_array s"
  "blacklist_array (snd (blacklisted pf a s)) = blacklist_array s"
  "blacklist_array (snd (not_found a s)) = blacklist_array s"
  "blacklist_array (snd (error_handler e a s)) = blacklist_array s"
  using plain_handlers_only_log(3,4,5) blacklisted_only_logs
  by (simp_all add: only_logs_def)

lemma error_mode_full:
  assumes "k < length (app_full pf)"
  shows "dispatch (drop k (app_full pf)) (Some e) a s =
           (Answered \<lparr>status = 500,
              body = JObject [(js ''error'', JString (js ''Internal server error'')),
                              (js ''message'', JString (message e))]\<rparr>,
            s\<lparr>stderr := stderr s @ [stack e]\<rparr>)"
proof -
  from assms have "k < 8" by (simp add: app_full_def)
  then consider "k = 0" | "k = 1" | "k = 2" | "k = 3" | "k = 4" | "k = 5" | "k = 6" | "k = 7"
    by linarith
  then show ?thesis
    by cases (simp_all add: app_full_def error_handler_def)
qed

lemma error_mode_minimal:
  assumes "k < length (app_minimal pf)"
  shows "dispatch (drop k (app_minimal pf)) (Some e) a s =
           (Answered \<lparr>status = 500,
              body = JObject [(js ''error'', JString (js ''Internal server error'')),
                              (js ''message'', JString (message e))]\<rparr>,
            s\<lparr>stderr := stderr s @ [stack e]\<rparr>)"
proof -
  from assms have "k < 5" by (simp add: app_minimal_def)
  then consider "k = 0" | "k = 1" | "k = 2" | "k = 3" | "k = 4"
    by linarith
  then show ?thesis
    by cases (simp_all add: app_minimal_def error_handler_def)
qed

lemma rejected_body:
  assumes "app = app_full pf \<or> app = app_minimal pf" and "body_fault a = Some e"
  shows "serve app a s = dispatch (drop 1 app) (Some e) a (s\<lparr>uptime_ns := uptime_ns s + elapsed_ns a\<rparr>)"
  using assms by (auto simp: serve_def app_full_def app_minimal_def express_json_def)




lemma chain_under_limit:
  "\<not> blacklist_exceeded a \<Longrightarrow> chain blacklistLimiter h a s = h a s"
  by (simp add: chain_def blacklistLimiter_def rateLimit_def)

lemma variants_agree_once:
  assumes "\<not> general_exceeded a" and "\<not> blacklist_exceeded a"
    and "\<not> path_under ''/api-docs'' (path (req a))"
    and "\<not> (handles_get (verb (req a)) \<and> path_is ''/api-docs.json'' (path (req a)))"
  shows "serve (app_full pf) a s = serve (app_minimal pf) a s"
proof (cases "body_fault a")
  case None
  with assms show ?thesis
    by (auto simp: serve_def app_minimal_def app_full_def express_json_def
        generalLimiter_def rateLimit_def chain_under_limit health_def)
next
  case (Some e)
  with assms show ?thesis
    by (simp add: serve_def app_minimal_def app_full_def express_json_def)
qed

lemma undecodable_path:
  assumes "app = app_full pf \<or> app = app_minimal pf"
    and "body_fault a = None" and "\<not> general_exceeded a"
    and "decodeURIComponent pf (path (req a)) = None"
    and "\<not> (handles_get (verb (req a)) \<and> path_is ''/health'' (path (req a)))"
    and "\<not> (handles_get (verb (req a)) \<and> path_is ''/blacklisted'' (path (req a)))"
    and "\<not> path_under ''/api-docs'' (path (req a))"
    and "\<not> (handles_get (verb (req a)) \<and> path_is ''/api-docs.json'' (path (req a)))"
  shows "fst (serve app a s) =
           Answered \<lparr>status = 500,
             body = JObject [(js ''error'', JString (js ''Internal server error'')),
                             (js ''message'',
                              JString (js ''Failed to decode param '' @ [0x27] @ path (req a)
                                       @ [0x27]))]\<rparr>"
  using assms
  by (auto simp: serve_def app_minimal_def app_full_def express_json_def error_handler_def
      generalLimiter_def rateLimit_def)

section \<open>The timestamp\<close>

lemma unat_digit: "unat (digit n) = 48 + n mod 10"
proof -
  have "digit n = of_nat (48 + n mod 10)"
    by (simp add: digit_def)
  moreover have "48 + n mod 10 < 2 ^ LENGTH(16)"
    by simp
  ultimately show ?thesis
    by (simp only: unat_of_nat mod_less)
qed

lemma is_digit_digit: "is_digit (digit n)"
  by (simp add: is_digit_def word_le_nat_alt unat_digit)

lemma length_pad: "length (pad w n) = w"
  by (induction w arbitrary: n) simp_all

lemma digits_pad: "list_all is_digit (pad w n)"
  by (induction w arbitrary: n) (simp_all add: is_digit_digit)

lemma decimal_snoc: "decimal (cs @ [c]) = 10 * decimal cs + (unat c - 48)"
  by (simp add: decimal_def)

lemma decimal_pad: "decimal (pad w n) = n mod 10 ^ w"
proof (induction w arbitrary: n)
  case 0
  then show ?case by (simp add: decimal_def)
next
  case (Suc w)
  have "decimal (pad (Suc w) n) = 10 * ((n div 10) mod 10 ^ w) + n mod 10"
    by (simp add: decimal_snoc Suc unat_digit)
  also have "\<dots> = n mod 10 ^ Suc w"
    by (simp add: mod_mult2_eq)
  finally show ?case .
qed

lemma DaysInYear_range: "DaysInYear y = 365 \<or> DaysInYear y = 366"
  by (simp add: DaysInYear_def)

lemma div_next:
  fixes x k :: int
  assumes "0 < k"
  shows "(x + 1) div k = x div k + (if (x + 1) mod k = 0 then 1 else 0)"
proof -
  define q r where "q = x div k" and "r = x mod k"
  have x: "x = k * q + r" and r: "0 \<le> r" "r < k"
    using assms by (simp_all add: q_def r_def)
  show ?thesis
  proof (cases "r + 1 = k")
    case True
    then have "x + 1 = k * (q + 1) + 0"
      using x by (simp add: algebra_simps)
    then have "(x + 1) div k = q + 1" "(x + 1) mod k = 0"
      using assms by (simp_all only: int_div_pos_eq[of _ k "q + 1" 0] int_mod_pos_eq[of _ k "q + 1" 0])
    then show ?thesis by (simp add: q_def)
  next
    case False
    with r have small: "0 \<le> r + 1" "r + 1 < k" by simp_all
    have "x + 1 = k * q + (r + 1)"
      using x by simp
    then have "(x + 1) div k = q" "(x + 1) mod k = r + 1"
      using small by (simp_all only: int_div_pos_eq[of _ k q "r + 1"] int_mod_pos_eq[of _ k q "r + 1"])
    then show ?thesis using r by (simp add: q_def)
  qed
qed

lemma leap_shifts:
  fixes y :: int
  shows "(y - 1968) mod 4 = y mod 4" and "(y - 1900) mod 100 = y mod 100"
    and "(y - 1600) mod 400 = y mod 400"
proof -
  have "(y - 4 * 492) mod 4 = y mod 4" "(y - 100 * 19) mod 100 = y mod 100"
    "(y - 400 * 4) mod 400 = y mod 400"
    by (simp_all only: mod_diff_right_eq [symmetric, of y] mod_mult_self1_is_0 diff_0_right)
  then show "(y - 1968) mod 4 = y mod 4" and "(y - 1900) mod 100 = y mod 100"
    and "(y - 1600) mod 400 = y mod 400"
    by simp_all
qed

lemma DayFromYear_Suc: "DayFromYear (y + 1) = DayFromYear y + DaysInYear y"
proof -
  have a: "(y - 1968) div 4 = (y - 1969) div 4 + (if y mod 4 = 0 then 1 else 0)"
    using div_next[of 4 "y - 1969"] leap_shifts(1)[of y] by simp
  have b: "(y - 1900) div 100 = (y - 1901) div 100 + (if y mod 100 = 0 then 1 else 0)"
    using div_next[of 100 "y - 1901"] leap_shifts(2)[of y] by simp
  have c: "(y - 1600) div 400 = (y - 1601) div 400 + (if y mod 400 = 0 then 1 else 0)"
    using div_next[of 400 "y - 1601"] leap_shifts(3)[of y] by simp
  have "y mod 100 = 0 \<Longrightarrow> y mod 4 = 0" "y mod 400 = 0 \<Longrightarrow> y mod 100 = 0"
    by presburger+
  then show ?thesis
    by (auto simp: DayFromYear_def DaysInYear_def a b c)
qed

lemma DayFromYear_mono: "y \<le> z \<Longrightarrow> DayFromYear y \<le> DayFromYear z"
proof (induction z rule: int_ge_induct)
  case base
  then show ?case by simp
next
  case (step i)
  then show ?case
    using DaysInYear_range[of i] by (auto simp: DayFromYear_Suc)
qed

lemma DayFromYear_1970: "DayFromYear 1970 = 0"
  by (simp add: DayFromYear_def)

lemma DayFromYear_10000: "DayFromYear 10000 = 2932897"
  by (simp add: DayFromYear_def)

lemma year_walk_spec:
  "year_walk y0 d0 = (y, d) \<Longrightarrow>
   0 \<le> d \<and> d < DaysInYear y \<and> DayFromYear y + d = DayFromYear y0 + d0"
proof (induction y0 d0 rule: year_walk.induct)
  case (1 y0 d0)
  show ?case
  proof (cases "d0 < 0")
    case True
    with 1 show ?thesis
      using DayFromYear_Suc[of "y0 - 1"] by (simp add: year_walk.simps[of y0 d0])
  next
    case False
    show ?thesis
    proof (cases "DaysInYear y0 \<le> d0")
      case True
      with False 1 show ?thesis
        using DayFromYear_Suc[of y0] by (simp add: year_walk.simps[of y0 d0])
    next
      case ge: False
      with False 1 show ?thesis
        by (simp add: year_walk.simps[of y0 d0])
    qed
  qed
qed

lemma month_walk_spec:
  "d0 < sum_list ls \<Longrightarrow> month_walk m0 d0 ls = (m, d) \<Longrightarrow>
   m0 \<le> m \<and> m - m0 < length ls \<and> d < ls ! (m - m0)"
proof (induction ls arbitrary: m0 d0)
  case Nil
  then show ?case by simp
next
  case (Cons l ls)
  show ?case
  proof (cases "d0 < l")
    case True
    with Cons.prems show ?thesis by simp
  next
    case False
    with Cons.prems have "d0 - l < sum_list ls" "month_walk (Suc m0) (d0 - l) ls = (m, d)"
      by simp_all
    from Cons.IH[OF this] show ?thesis
      by (auto simp: Suc_diff_le)
  qed
qed

lemma sum_month_lengths: "int (sum_list (month_lengths y)) = DaysInYear y"
  using DaysInYear_range[of y] by (auto simp: month_lengths_def)

lemma pad2: "pad 2 n = [digit (n div 10), digit n]"
  unfolding numeral_2_eq_2 by simp

lemma pad3: "pad 3 n = [digit (n div 10 div 10), digit (n div 10), digit n]"
  unfolding numeral_3_eq_3 by simp

lemma pad4:
  "pad 4 n = [digit (n div 10 div 10 div 10), digit (n div 10 div 10), digit (n div 10), digit n]"
proof -
  have "(4::nat) = Suc (Suc (Suc (Suc 0)))" by simp
  then show ?thesis by (simp only: pad.simps append.simps)
qed

lemma toISOString_fields:
  assumes "year_walk 1970 (t div msPerDay) = (y, doy)"
    and "month_walk 0 (nat doy) (month_lengths y) = (m, d)"
    and "0 \<le> y" and "y \<le> 9999"
  shows "toISOString t =
     pad 4 (nat y) @ js ''-'' @ pad 2 (Suc m) @ js ''-'' @ pad 2 (Suc d) @ js ''T''
     @ pad 2 (nat (t mod msPerDay) div 3600000) @ js '':''
     @ pad 2 (nat (t mod msPerDay) div 60000 mod 60) @ js '':''
     @ pad 2 (nat (t mod msPerDay) div 1000 mod 60) @ js ''.''
     @ pad 3 (nat (t mod msPerDay) mod 1000) @ js ''Z''"
  using assms by (simp add: toISOString_def year_text_def Let_def)

lemma iso_shape:
  assumes "s = pad 4 y @ js ''-'' @ pad 2 mo @ js ''-'' @ pad 2 d @ js ''T''
     @ pad 2 h @ js '':'' @ pad 2 mi @ js '':'' @ pad 2 se @ js ''.'' @ pad 3 ms @ js ''Z''"
  shows "length s = 24"
    and "field 0 4 s = pad 4 y" and "field 4 1 s = js ''-''"
    and "field 5 2 s = pad 2 mo" and "field 7 1 s = js ''-''"
    and "field 8 2 s = pad 2 d" and "field 10 1 s = js ''T''"
    and "field 11 2 s = pad 2 h" and "field 13 1 s = js '':''"
    and "field 14 2 s = pad 2 mi" and "field 16 1 s = js '':''"
    and "field 17 2 s = pad 2 se" and "field 19 1 s = js ''.''"
    and "field 20 3 s = pad 3 ms" and "field 23 1 s = js ''Z''"
  unfolding assms by (simp_all add: field_def pad2 pad3 pad4 js_def)

lemma month_lengths_bound: "m < 12 \<Longrightarrow> month_lengths y ! m \<le> 31"
proof -
  have "\<forall>l\<in>set (month_lengths y). l \<le> 31" "length (month_lengths y) = 12"
    by (simp_all add: month_lengths_def)
  then show "m < 12 \<Longrightarrow> month_lengths y ! m \<le> 31"
    using nth_mem[of m "month_lengths y"] by simp
qed

lemma toISOString_valid:
  assumes "0 \<le> t" and "t < 253402300800000"
  shows "iso_instant (toISOString t)"
proof -
  obtain y doy where yw: "year_walk 1970 (t div msPerDay) = (y, doy)"
    by (cases "year_walk 1970 (t div msPerDay)")
  obtain m d where mw: "month_walk 0 (nat doy) (month_lengths y) = (m, d)"
    by (cases "month_walk 0 (nat doy) (month_lengths y)")
  have day: "0 \<le> t div msPerDay" "t div msPerDay < 2932897"
    using assms by (simp_all add: msPerDay_def pos_imp_zdiv_nonneg_iff div_less_iff_less_mult)
  from year_walk_spec[OF yw]
  have doy: "0 \<le> doy" "doy < DaysInYear y" and at: "DayFromYear y + doy = t div msPerDay"
    by (simp_all add: DayFromYear_1970)
  have "DayFromYear 1970 < DayFromYear (y + 1)"
    using doy at day by (simp add: DayFromYear_Suc DayFromYear_1970)
  then have lo: "1970 \<le> y"
    using DayFromYear_mono[of "y + 1" 1970] by linarith
  have "DayFromYear y < DayFromYear 10000"
    using doy at day by (simp add: DayFromYear_10000)
  then have hi: "y \<le> 9999"
    using DayFromYear_mono[of 10000 y] by linarith
  have "nat doy < sum_list (month_lengths y)"
    using doy sum_month_lengths[of y] by linarith
  from month_walk_spec[OF this mw]
  have m: "m < 12" and d: "d < month_lengths y ! m"
    by (simp_all add: month_lengths_def)
  from d month_lengths_bound[OF m] have d31: "d < 31"
    by (rule less_le_trans)
  define ms where "ms = nat (t mod msPerDay)"
  have ms: "ms < 86400000"
    by (simp add: ms_def msPerDay_def)
  then have h: "ms div 3600000 < 24"
    by (simp add: div_less_iff_less_mult)
  have s: "toISOString t =
     pad 4 (nat y) @ js ''-'' @ pad 2 (Suc m) @ js ''-'' @ pad 2 (Suc d) @ js ''T''
     @ pad 2 (ms div 3600000) @ js '':'' @ pad 2 (ms div 60000 mod 60) @ js '':''
     @ pad 2 (ms div 1000 mod 60) @ js ''.'' @ pad 3 (ms mod 1000) @ js ''Z''"
    unfolding ms_def using yw mw lo hi by (intro toISOString_fields) simp_all
  have year: "int (nat y mod 10 ^ 4) = y"
    using lo hi by simp
  have month: "Suc m mod 10 ^ 2 = Suc m" and date: "Suc d mod 10 ^ 2 = Suc d"
    and hour: "(ms div 3600000) mod 10 ^ 2 = ms div 3600000"
    and minute: "(ms div 60000 mod 60) mod 10 ^ 2 = ms div 60000 mod 60"
    and second: "(ms div 1000 mod 60) mod 10 ^ 2 = ms div 1000 mod 60"
    using m d31 h by simp_all
  have "ms div 60000 mod 60 < 60" "ms div 1000 mod 60 < 60"
    by simp_all
  then have sixty: "ms div 60000 mod 60 \<le> 59" "ms div 1000 mod 60 \<le> 59"
    by linarith+
  show ?thesis
    unfolding iso_instant_def iso_shape[OF s] decimal_pad year month date hour minute second
    using m d h sixty by (simp add: digits_pad)
qed


lemma serve_uptime:
  assumes "app = app_full pf \<or> app = app_minimal pf"
  shows "uptime_ns (snd (serve app a s)) = uptime_ns s + elapsed_ns a"
proof -
  let ?P = "\<lambda>s'. uptime_ns s' = uptime_ns s + elapsed_ns a"
  have "\<forall>l\<in>set app. layer_keeps ?P l"
    using assms app_layers_keep[of ?P pf] by (auto simp: only_logs_def)
  moreover have "?P (s\<lparr>uptime_ns := uptime_ns s + elapsed_ns a\<rparr>)"
    by simp
  ultimately show ?thesis
    unfolding serve_def by (rule dispatch_keeps)
qed

lemma run_uptime:
  assumes "app = app_full pf \<or> app = app_minimal pf"
  shows "uptime_ns s \<le> uptime_ns (snd (run app as s))"
proof -
  let ?P = "\<lambda>s'. uptime_ns s \<le> uptime_ns s'"
  have "\<forall>l\<in>set app. layer_keeps ?P l"
    using assms app_layers_keep[of ?P pf] by (auto simp: only_logs_def)
  then show ?thesis
    by (rule run_keeps) simp_all
qed

lemma health_route:
  assumes "app = app_full pf \<or> app = app_minimal pf"
    and "verb (req a) = GET" and "path (req a) = js ''/health''"
    and "body_fault a = None" and "\<not> general_exceeded a"
  shows "fst (serve app a s) =
           Answered \<lparr>status = 200,
             body = JObject [(js ''status'', JString (js ''healthy'')),
                             (js ''timestamp'', JString (toISOString (date_now a))),
                             (js ''uptime'', JNumber (real (uptime_ns s + elapsed_ns a) / 10 ^ 9)),
                             (js ''service'', JString (js ''blacklisted-mock-api-server''))]\<rparr>"
  using assms
  by (auto simp: serve_def app_full_def app_minimal_def express_json_def generalLimiter_def
      rateLimit_def health_def routing)

lemma year_walk_2025: "year_walk 1970 20395 = (2025, 306)"
  by (simp add: year_walk.simps DaysInYear_def)

lemma month_walk_2025: "month_walk 0 306 (month_lengths 2025) = (10, 2)"
  by (simp add: month_lengths_def DaysInYear_def)

lemma timestamp_first: "toISOString 1762177649824 = js ''2025-11-03T13:47:29.824Z''"
proof -
  have "(1762177649824::int) div msPerDay = 20395" "(1762177649824::int) mod msPerDay = 49649824"
    by (simp_all add: msPerDay_def)
  then have "toISOString 1762177649824 =
     pad 4 2025 @ js ''-'' @ pad 2 11 @ js ''-'' @ pad 2 3 @ js ''T''
     @ pad 2 13 @ js '':'' @ pad 2 47 @ js '':'' @ pad 2 29 @ js ''.'' @ pad 3 824 @ js ''Z''"
    using toISOString_fields[of 1762177649824 2025 306 10 2] year_walk_2025 month_walk_2025
    by simp
  then show ?thesis
    by (simp add: pad2 pad3 pad4) (simp add: digit_def js_def)
qed

lemma timestamp_second: "toISOString 1762177650824 = js ''2025-11-03T13:47:30.824Z''"
proof -
  have "(1762177650824::int) div msPerDay = 20395" "(1762177650824::int) mod msPerDay = 49650824"
    by (simp_all add: msPerDay_def)
  then have "toISOString 1762177650824 =
     pad 4 2025 @ js ''-'' @ pad 2 11 @ js ''-'' @ pad 2 3 @ js ''T''
     @ pad 2 13 @ js '':'' @ pad 2 47 @ js '':'' @ pad 2 30 @ js ''.'' @ pad 3 824 @ js ''Z''"
    using toISOString_fields[of 1762177650824 2025 306 10 2] year_walk_2025 month_walk_2025
    by simp
  then show ?thesis
    by (simp add: pad2 pad3 pad4) (simp add: digit_def js_def)
qed

section \<open>What a response depends on\<close>

lemma some_equal_trace:
  "some_equal lc tr bs v =
     (case some_equal lc [] bs v of Inl e \<Rightarrow> Inl (e\<lparr>stack := tr\<rparr>) | Inr b \<Rightarrow> Inr b)"
proof (cases v)
  case (QString n)
  then show ?thesis by (simp add: some_equal_string)
next
  case (QArray vs)
  then show ?thesis by (cases bs) simp_all
next
  case (QObject kvs)
  then show ?thesis by (cases bs) simp_all
qed

lemma blacklisted_determined:
  assumes "req a2 = req a1" and "blacklist_array s2 = blacklist_array s1"
  shows "(\<exists>r. blacklisted pf a1 s1 = (Respond r, s1) \<and> blacklisted pf a2 s2 = (Respond r, s2))
       \<or> (\<exists>e1 e2. blacklisted pf a1 s1 = (Throw e1, s1) \<and> blacklisted pf a2 s2 = (Throw e2, s2)
              \<and> message e1 = message e2)"
  using assms
  by (auto simp: blacklisted_def Let_def some_equal_trace[of _ "trace a1"]
      some_equal_trace[of _ "trace a2"] split: option.splits sum.splits)

lemma minimal_determined:
  assumes "req a2 = req a1" and "body_fault a2 = body_fault a1"
    and "blacklist_array s2 = blacklist_array s1"
    and "\<not> (handles_get (verb (req a1)) \<and> path_is ''/health'' (path (req a1)))"
  shows "fst (dispatch (app_minimal pf) None a1 s1) = fst (dispatch (app_minimal pf) None a2 s2)"
proof (cases "body_fault a1")
  case None
  from blacklisted_determined[OF assms(1,3), of pf] None assms(1,2,4) show ?thesis
    by (auto simp: app_minimal_def express_json_def not_found_def error_handler_def
        split: option.splits)
next
  case (Some e)
  with assms(2) show ?thesis
    by (simp add: app_minimal_def express_json_def error_handler_def)
qed

lemma full_determined:
  assumes "req a2 = req a1" and "body_fault a2 = body_fault a1"
    and "general_exceeded a2 = general_exceeded a1"
    and "blacklist_exceeded a2 = blacklist_exceeded a1"
    and "blacklist_array s2 = blacklist_array s1"
    and "\<not> (handles_get (verb (req a1)) \<and> path_is ''/health'' (path (req a1)))"
  shows "fst (dispatch (app_full pf) None a1 s1) = fst (dispatch (app_full pf) None a2 s2)"
proof (cases "body_fault a1")
  case None
  note bf = this
  show ?thesis
  proof (cases "general_exceeded a1")
    case True
    with bf assms(2,3) show ?thesis
      by (simp add: app_full_def express_json_def generalLimiter_def rateLimit_def)
  next
    case False
    have tail: "fst (dispatch (drop 3 (app_full pf)) None a1 s1)
              = fst (dispatch (drop 3 (app_full pf)) None a2 s2)"
      using blacklisted_determined[OF assms(1,5), of pf] assms(1,4,6)
      by (auto simp: app_full_def api_docs_json_def not_found_def error_handler_def
          chain_def blacklistLimiter_def rateLimit_def split: option.splits)
    have err: "fst (dispatch (drop 3 (app_full pf)) (Some e) a1 s1)
              = fst (dispatch (drop 3 (app_full pf)) (Some e) a2 s2)" for e
      by (simp add: app_full_def error_handler_def)
    from False bf assms(1,2,3) tail err show ?thesis
      by (cases "swaggerUi pf (req a1)")
         (auto simp: app_full_def express_json_def generalLimiter_def rateLimit_def swagger_ui_def)
  qed
next
  case (Some e)
  with assms(2) show ?thesis
    by (simp add: app_full_def express_json_def error_handler_def)
qed

section \<open>The check of one name\<close>

text \<open>
  C1. A GET request to \<open>/blacklisted\<close> whose \<open>name\<close> parameter is a non-empty string,
  with its body accepted and under both rate limits, is answered with status 200 and a
  body of two fields: \<open>name\<close>, the string exactly as it was supplied, and
  \<open>isBlacklisted\<close>, true exactly when some entry of the ten-entry blacklist and the
  supplied string are equal as whole strings after \<open>toLowerCase\<close> on both. This holds in
  either application, after any earlier requests, for every \<open>toLowerCase\<close>.
\<close>

theorem blacklisted_with_name:
  assumes "app = app_full pf \<or> app = app_minimal pf"
    and "verb (req a) = GET" and "path (req a) = js ''/blacklisted''"
    and "query (req a) (js ''name'') = Some (QString n)" and "n \<noteq> []"
    and "body_fault a = None" and "\<not> general_exceeded a" and "\<not> blacklist_exceeded a"
  shows "fst (serve app a (snd (run app history initial_state))) =
           Answered \<lparr>status = 200,
             body = JObject
               [(js ''name'', JString n),
                (js ''isBlacklisted'',
                 JBool (\<exists>entry\<in>set blacklistedNames. toLowerCase pf entry = toLowerCase pf n))]\<rparr>
         \<and> length blacklistedNames = 10"
proof -
  have "blacklist_array (snd (run app history initial_state)) = blacklistedNames"
    using assms(1) by (rule reachable_blacklist)
  then show ?thesis
    using assms(4,5)
    by (simp add: serve_blacklisted_route[OF assms(1,2,3,6,7,8)] blacklisted_def
        some_equal_string) (simp add: blacklistedNames_def)
qed

text \<open>\<open>JOHN smith\<close> is echoed unchanged and found.\<close>

theorem blacklisted_with_name_witness:
  "verb (req (plain_arrival GET ''/blacklisted'' [js ''name'' \<mapsto> QString (js ''JOHN smith'')] 1762177649824)) = GET
   \<and> js ''JOHN smith'' \<noteq> []
   \<and> fst (serve (app_minimal sample_platform)
             (plain_arrival GET ''/blacklisted'' [js ''name'' \<mapsto> QString (js ''JOHN smith'')] 1762177649824)
             (snd (run (app_minimal sample_platform) [] initial_state))) =
        Answered \<lparr>status = 200,
          body = JObject [(js ''name'', JString (js ''JOHN smith'')),
                          (js ''isBlacklisted'', JBool True)]\<rparr>"
  using blacklisted_with_name[of "app_minimal sample_platform" sample_platform
      "plain_arrival GET ''/blacklisted'' [js ''name'' \<mapsto> QString (js ''JOHN smith'')] 1762177649824"
      "js ''JOHN smith''" "[]"]
  by (simp add: plain_arrival_def sample_platform_def blacklistedNames_def js_def lower_unit_def)

section \<open>The listing of all names\<close>

text \<open>
  C2. A GET request to \<open>/blacklisted\<close> whose \<open>name\<close> parameter is absent or the empty
  string, with its body accepted and under both rate limits, is answered with status 200
  and a body holding \<open>blacklistedNames\<close>, the ten configured names in their order, and
  \<open>count\<close>, 10. This holds in either application, after any earlier requests.
\<close>

theorem blacklisted_without_name:
  assumes "app = app_full pf \<or> app = app_minimal pf"
    and "verb (req a) = GET" and "path (req a) = js ''/blacklisted''"
    and "query (req a) (js ''name'') = None \<or> query (req a) (js ''name'') = Some (QString [])"
    and "body_fault a = None" and "\<not> general_exceeded a" and "\<not> blacklist_exceeded a"
  shows "fst (serve app a (snd (run app history initial_state))) =
           Answered \<lparr>status = 200,
             body = JObject
               [(js ''blacklistedNames'',
                 JArray [JString (js ''John Smith''), JString (js ''Jane Doe''),
                         JString (js ''Mike Johnson''), JString (js ''Sarah Wilson''),
                         JString (js ''Robert Brown''), JString (js ''Emily Davis''),
                         JString (js ''David Miller''), JString (js ''Lisa Garcia''),
                         JString (js ''James Rodriguez''), JString (js ''Maria Martinez'')]),
                (js ''count'', JNumber 10)]\<rparr>"
proof -
  have "blacklist_array (snd (run app history initial_state)) = blacklistedNames"
    using assms(1) by (rule reachable_blacklist)
  then show ?thesis
    unfolding listing_when_no_name[OF assms] by (simp add: blacklistedNames_def)
qed

text \<open>The listing after an earlier POST, which was answered 404.\<close>

theorem blacklisted_without_name_witness:
  "verb (req (plain_arrival GET ''/blacklisted'' Map.empty 1762177649824)) = GET
   \<and> path (req (plain_arrival GET ''/blacklisted'' Map.empty 1762177649824)) = js ''/blacklisted''
   \<and> query (req (plain_arrival GET ''/blacklisted'' Map.empty 1762177649824)) (js ''name'') = None
   \<and> fst (serve (app_full sample_platform)
             (plain_arrival GET ''/blacklisted'' Map.empty 1762177649824)
             (snd (run (app_full sample_platform)
                    [plain_arrival POST ''/blacklisted'' Map.empty 1762177640000] initial_state))) =
        Answered \<lparr>status = 200,
          body = JObject
            [(js ''blacklistedNames'',
              JArray [JString (js ''John Smith''), JString (js ''Jane Doe''),
                      JString (js ''Mike Johnson''), JString (js ''Sarah Wilson''),
                      JString (js ''Robert Brown''), JString (js ''Emily Davis''),
                      JString (js ''David Miller''), JString (js ''Lisa Garcia''),
                      JString (js ''James Rodriguez''), JString (js ''Maria Martinez'')]),
             (js ''count'', JNumber 10)]\<rparr>"
  using blacklisted_without_name[of "app_full sample_platform" sample_platform
      "plain_arrival GET ''/blacklisted'' Map.empty 1762177649824"
      "[plain_arrival POST ''/blacklisted'' Map.empty 1762177640000]"]
  by (simp add: plain_arrival_def)

section \<open>The blacklist is constant\<close>

text \<open>
  C3. No handler (health, blacklist lookup, 404 fallback, error handler) changes the
  contents of the blacklist array. So after any sequence of requests from start-up the
  array still holds the configured names, ten of them, and every request of that
  sequence that asks for the listing is answered with those names and their number.
\<close>

theorem blacklist_never_changes:
  assumes "app = app_full pf \<or> app = app_minimal pf"
  shows "blacklist_array (snd (health a s)) = blacklist_array s
       \<and> blacklist_array (snd (blacklisted pf a s)) = blacklist_array s
       \<and> blacklist_array (snd (not_found a s)) = blacklist_array s
       \<and> blacklist_array (snd (error_handler e a s)) = blacklist_array s
       \<and> blacklist_array (snd (run app requests initial_state)) = blacklistedNames
       \<and> length (blacklist_array (snd (run app requests initial_state))) = 10
       \<and> (\<forall>i<length requests.
            verb (req (requests ! i)) = GET \<and> path (req (requests ! i)) = js ''/blacklisted''
            \<and> (query (req (requests ! i)) (js ''name'') = None
                \<or> query (req (requests ! i)) (js ''name'') = Some (QString []))
            \<and> body_fault (requests ! i) = None \<and> \<not> general_exceeded (requests ! i)
            \<and> \<not> blacklist_exceeded (requests ! i)
            \<longrightarrow> fst (run app requests initial_state) ! i =
                  Answered \<lparr>status = 200,
                    body = JObject [(js ''blacklistedNames'', JArray (map JString blacklistedNames)),
                                    (js ''count'', JNumber (real (length blacklistedNames)))]\<rparr>)"
proof -
  have inv: "blacklist_array (snd (run app rs initial_state)) = blacklistedNames" for rs
    using assms by (rule reachable_blacklist)
  have "fst (run app requests initial_state) ! i =
          Answered \<lparr>status = 200,
            body = JObject [(js ''blacklistedNames'', JArray (map JString blacklistedNames)),
                            (js ''count'', JNumber (real (length blacklistedNames)))]\<rparr>"
    if "i < length requests"
      and "verb (req (requests ! i)) = GET" and "path (req (requests ! i)) = js ''/blacklisted''"
      and "query (req (requests ! i)) (js ''name'') = None
           \<or> query (req (requests ! i)) (js ''name'') = Some (QString [])"
      and "body_fault (requests ! i) = None" and "\<not> general_exceeded (requests ! i)"
      and "\<not> blacklist_exceeded (requests ! i)"
    for i
    unfolding run_nth[OF that(1)] listing_when_no_name[OF assms that(2-7)] inv ..
  then show ?thesis
    using inv[of requests] by (simp add: handlers_keep_blacklist) (simp add: blacklistedNames_def)
qed

text \<open>Three requests, the second of which ends in the error handler.\<close>

theorem blacklist_never_changes_witness:
  "fst (run (app_full sample_platform)
         [plain_arrival GET ''/blacklisted'' Map.empty 1762177640000,
          plain_arrival GET ''/blacklisted'' [js ''name'' \<mapsto> QArray []] 1762177641000,
          plain_arrival GET ''/blacklisted'' [js ''name'' \<mapsto> QString []] 1762177642000]
         initial_state) ! 2 =
     Answered \<lparr>status = 200,
       body = JObject [(js ''blacklistedNames'', JArray (map JString blacklistedNames)),
                       (js ''count'', JNumber (real (length blacklistedNames)))]\<rparr>
   \<and> blacklist_array (snd (run (app_full sample_platform)
         [plain_arrival GET ''/blacklisted'' Map.empty 1762177640000,
          plain_arrival GET ''/blacklisted'' [js ''name'' \<mapsto> QArray []] 1762177641000,
          plain_arrival GET ''/blacklisted'' [js ''name'' \<mapsto> QString []] 1762177642000]
         initial_state)) = blacklistedNames"
proof -
  let ?rs = "[plain_arrival GET ''/blacklisted'' Map.empty 1762177640000,
          plain_arrival GET ''/blacklisted'' [js ''name'' \<mapsto> QArray []] 1762177641000,
          plain_arrival GET ''/blacklisted'' [js ''name'' \<mapsto> QString []] 1762177642000]"
  note fact = blacklist_never_changes[of "app_full sample_platform" sample_platform _ _ _ ?rs]
  have "(2::nat) < length ?rs" by simp
  with fact show ?thesis
    by (auto simp: plain_arrival_def)
qed

section \<open>Every request is answered\<close>




section \<open>The fallback\<close>

text \<open>
  C5, as stated, fails: \<open>GET /%zz\<close> matches no route, and both applications answer it
  with status 500, not 404. The \<open>'*'\<close> layer of the fallback decodes the path, \<open>%zz\<close> does
  not decode, and the error goes to the error handler.
\<close>

theorem undecodable_path_answers_500:
  "\<not> (handles_get GET \<and> path_is ''/health'' (js ''/%zz''))
   \<and> \<not> (handles_get GET \<and> path_is ''/blacklisted'' (js ''/%zz''))
   \<and> \<not> path_under ''/api-docs'' (js ''/%zz'')
   \<and> \<not> (handles_get GET \<and> path_is ''/api-docs.json'' (js ''/%zz''))
   \<and> fst (serve (app_minimal sample_platform)
           (plain_arrival GET ''/%zz'' Map.empty 1762177649824) initial_state) =
       Answered \<lparr>status = 500,
         body = JObject [(js ''error'', JString (js ''Internal server error'')),
                         (js ''message'',
                          JString (js ''Failed to decode param '' @ [0x27] @ js ''/%zz''
                                   @ [0x27]))]\<rparr>
   \<and> fst (serve (app_full sample_platform)
           (plain_arrival GET ''/%zz'' Map.empty 1762177649824) initial_state) =
       Answered \<lparr>status = 500,
         body = JObject [(js ''error'', JString (js ''Internal server error'')),
                         (js ''message'',
                          JString (js ''Failed to decode param '' @ [0x27] @ js ''/%zz''
                                   @ [0x27]))]\<rparr>"
  by (simp add: serve_def app_minimal_def app_full_def express_json_def generalLimiter_def
      rateLimit_def error_handler_def sample_platform_def plain_arrival_def routing)

text \<open>
  C5, amended. A request that matches no route and whose path percent-decodes (its body
  accepted, and under the general rate limit) is answered with status 404 and the body
  \<open>{error: "Endpoint not found", availableEndpoints: ["GET /health", "GET /blacklisted",
  "GET /blacklisted?name=<name>"]}\<close>. The routes are \<open>/health\<close> and \<open>/blacklisted\<close>
  for GET, and in the application with documentation also \<open>/api-docs.json\<close> for GET and
  everything at or below \<open>/api-docs\<close>.
\<close>

theorem unmatched_is_404:
  assumes "body_fault a = None" and "decodeURIComponent pf (path (req a)) = Some decoded"
    and "\<not> (handles_get (verb (req a)) \<and> path_is ''/health'' (path (req a)))"
    and "\<not> (handles_get (verb (req a)) \<and> path_is ''/blacklisted'' (path (req a)))"
  shows "fst (serve (app_minimal pf) a s) =
           Answered \<lparr>status = 404,
             body = JObject [(js ''error'', JString (js ''Endpoint not found'')),
                             (js ''availableEndpoints'',
                              JArray [JString (js ''GET /health''),
                                      JString (js ''GET /blacklisted''),
                                      JString (js ''GET /blacklisted?name=<name>'')])]\<rparr>
       \<and> (\<not> general_exceeded a
            \<and> \<not> path_under ''/api-docs'' (path (req a))
            \<and> \<not> (handles_get (verb (req a)) \<and> path_is ''/api-docs.json'' (path (req a)))
          \<longrightarrow> fst (serve (app_full pf) a s) =
           Answered \<lparr>status = 404,
             body = JObject [(js ''error'', JString (js ''Endpoint not found'')),
                             (js ''availableEndpoints'',
                              JArray [JString (js ''GET /health''),
                                      JString (js ''GET /blacklisted''),
                                      JString (js ''GET /blacklisted?name=<name>'')])]\<rparr>)"
  using assms
  by (auto simp: serve_def app_minimal_def app_full_def express_json_def not_found_def
      generalLimiter_def rateLimit_def)

text \<open>\<open>GET /nonexistent\<close>.\<close>

theorem unmatched_is_404_witness:
  "\<not> (handles_get GET \<and> path_is ''/health'' (js ''/nonexistent''))
   \<and> \<not> (handles_get GET \<and> path_is ''/blacklisted'' (js ''/nonexistent''))
   \<and> \<not> path_under ''/api-docs'' (js ''/nonexistent'')
   \<and> \<not> (handles_get GET \<and> path_is ''/api-docs.json'' (js ''/nonexistent''))
   \<and> fst (serve (app_full sample_platform)
            (plain_arrival GET ''/nonexistent'' Map.empty 1762177649824) initial_state) =
           Answered \<lparr>status = 404,
             body = JObject [(js ''error'', JString (js ''Endpoint not found'')),
                             (js ''availableEndpoints'',
                              JArray [JString (js ''GET /health''),
                                      JString (js ''GET /blacklisted''),
                                      JString (js ''GET /blacklisted?name=<name>'')])]\<rparr>"
  using unmatched_is_404[of "plain_arrival GET ''/nonexistent'' Map.empty 1762177649824"
      sample_platform "js ''/nonexistent''" initial_state]
  by (simp add: plain_arrival_def sample_platform_def routing)

section \<open>The error handler\<close>

text \<open>
  C7. A fault raised by any layer of the stack is answered by the error handler: status
  500 and a body of exactly two fields, \<open>error\<close> with the fixed text
  \<open>Internal server error\<close> and \<open>message\<close> with the message of the fault. The stack trace
  goes to the console only: the response is the same whatever the stack trace is. In
  particular a body that \<open>express.json()\<close> rejects is answered so.
\<close>

theorem fault_becomes_500:
  assumes "app = app_full pf \<or> app = app_minimal pf" and "k < length app"
  shows "dispatch (drop k app) (Some e) a s =
           (Answered \<lparr>status = 500,
              body = JObject [(js ''error'', JString (js ''Internal server error'')),
                              (js ''message'', JString (message e))]\<rparr>,
            s\<lparr>stderr := stderr s @ [stack e]\<rparr>)
       \<and> fst (dispatch (drop k app) (Some (e\<lparr>stack := other\<rparr>)) a s) =
           fst (dispatch (drop k app) (Some e) a s)
       \<and> (body_fault a = Some e \<longrightarrow>
            serve app a s =
              (Answered \<lparr>status = 500,
                 body = JObject [(js ''error'', JString (js ''Internal server error'')),
                                 (js ''message'', JString (message e))]\<rparr>,
               s\<lparr>uptime_ns := uptime_ns s + elapsed_ns a, stderr := stderr s @ [stack e]\<rparr>))"
proof -
  have len: "1 < length app"
    using assms(1) by (auto simp: app_full_def app_minimal_def)
  have *: "dispatch (drop j app) (Some x) a s' =
           (Answered \<lparr>status = 500,
              body = JObject [(js ''error'', JString (js ''Internal server error'')),
                              (js ''message'', JString (message x))]\<rparr>,
            s'\<lparr>stderr := stderr s' @ [stack x]\<rparr>)" if "j < length app" for j x s'
    using assms(1) that error_mode_full[of j pf] error_mode_minimal[of j pf] by auto
  show ?thesis
    using *[OF assms(2)] *[OF len] rejected_body[OF assms(1), of a e s] by simp
qed

text \<open>A POST whose JSON body is cut short.\<close>

theorem fault_becomes_500_witness:
  "(2::nat) < length (app_full sample_platform)
   \<and> body_fault (plain_arrival POST ''/health'' Map.empty 1762177649824
        \<lparr>body_fault := Some \<lparr>message = js ''Unexpected end of JSON input'',
                               stack = js ''SyntaxError: Unexpected end of JSON input at parse''\<rparr>\<rparr>)
      = Some \<lparr>message = js ''Unexpected end of JSON input'',
              stack = js ''SyntaxError: Unexpected end of JSON input at parse''\<rparr>
   \<and> serve (app_full sample_platform)
        (plain_arrival POST ''/health'' Map.empty 1762177649824
          \<lparr>body_fault := Some \<lparr>message = js ''Unexpected end of JSON input'',
                                 stack = js ''SyntaxError: Unexpected end of JSON input at parse''\<rparr>\<rparr>)
        initial_state =
       (Answered \<lparr>status = 500,
          body = JObject [(js ''error'', JString (js ''Internal server error'')),
                          (js ''message'', JString (js ''Unexpected end of JSON input''))]\<rparr>,
        \<lparr>blacklist_array = blacklistedNames, uptime_ns = 1500000000,
         stderr = [js ''SyntaxError: Unexpected end of JSON input at parse'']\<rparr>)"
  using fault_becomes_500[of "app_full sample_platform" sample_platform 2
      "\<lparr>message = js ''Unexpected end of JSON input'',
        stack = js ''SyntaxError: Unexpected end of JSON input at parse''\<rparr>"
      "plain_arrival POST ''/health'' Map.empty 1762177649824
          \<lparr>body_fault := Some \<lparr>message = js ''Unexpected end of JSON input'',
                                 stack = js ''SyntaxError: Unexpected end of JSON input at parse''\<rparr>\<rparr>"
      initial_state]
  by (simp add: plain_arrival_def initial_state_def app_full_def)

section \<open>The two applications agree\<close>

text \<open>
  C9. On requests that stay under both rate limits and are not addressed to the
  documentation (\<open>/api-docs\<close> and below, \<open>/api-docs.json\<close>), the application with rate
  limiting and documentation and the one without give the same responses, and leave the
  same state, over any sequence of requests from any state.
\<close>

theorem variants_agree:
  assumes "\<forall>a\<in>set requests.
             \<not> general_exceeded a \<and> \<not> blacklist_exceeded a
             \<and> \<not> path_under ''/api-docs'' (path (req a))
             \<and> \<not> (handles_get (verb (req a)) \<and> path_is ''/api-docs.json'' (path (req a)))"
  shows "run (app_full pf) requests s = run (app_minimal pf) requests s"
  using assms
proof (induction requests arbitrary: s)
  case Nil
  then show ?case by simp
next
  case (Cons a requests)
  then have "serve (app_full pf) a s = serve (app_minimal pf) a s"
    by (simp add: variants_agree_once)
  moreover have "run (app_full pf) requests s' = run (app_minimal pf) requests s'" for s'
    using Cons by simp
  ultimately show ?case
    by (simp add: split_beta)
qed

text \<open>A health check, a lookup, a lookup that throws, and an unmatched method.\<close>

theorem variants_agree_witness:
  "run (app_full sample_platform)
     [plain_arrival GET ''/health'' Map.empty 1762177649824,
      plain_arrival GET ''/blacklisted'' [js ''name'' \<mapsto> QString (js ''jane doe'')] 1762177650000,
      plain_arrival GET ''/blacklisted'' [js ''name'' \<mapsto> QArray []] 1762177651000,
      plain_arrival DELETE ''/blacklisted'' Map.empty 1762177652000] initial_state
   = run (app_minimal sample_platform)
     [plain_arrival GET ''/health'' Map.empty 1762177649824,
      plain_arrival GET ''/blacklisted'' [js ''name'' \<mapsto> QString (js ''jane doe'')] 1762177650000,
      plain_arrival GET ''/blacklisted'' [js ''name'' \<mapsto> QArray []] 1762177651000,
      plain_arrival DELETE ''/blacklisted'' Map.empty 1762177652000] initial_state"
proof -
  have "\<not> path_under ''/api-docs'' (js ''/health'')"
    and "\<not> path_under ''/api-docs'' (js ''/blacklisted'')"
    and "\<not> path_is ''/api-docs.json'' (js ''/health'')"
    and "\<not> path_is ''/api-docs.json'' (js ''/blacklisted'')"
    by (simp_all add: path_under_def path_is_def js_def lower_unit_def)
  then show ?thesis
    using variants_agree[of
        "[plain_arrival GET ''/health'' Map.empty 1762177649824,
          plain_arrival GET ''/blacklisted'' [js ''name'' \<mapsto> QString (js ''jane doe'')] 1762177650000,
          plain_arrival GET ''/blacklisted'' [js ''name'' \<mapsto> QArray []] 1762177651000,
          plain_arrival DELETE ''/blacklisted'' Map.empty 1762177652000]"
        sample_platform initial_state]
    by (simp add: plain_arrival_def)
qed

section \<open>A name that is not a string\<close>

text \<open>
  C10. A GET request to \<open>/blacklisted\<close> whose \<open>name\<close> parameter was parsed to an array
  or an object (with its body accepted and under both rate limits): lowercasing it
  throws, and the error handler answers with status 500, not 200, and logs the stack.
\<close>

theorem blacklisted_with_non_string_name:
  assumes "app = app_full pf \<or> app = app_minimal pf"
    and "verb (req a) = GET" and "path (req a) = js ''/blacklisted''"
    and "query (req a) (js ''name'') = Some v"
    and "(\<exists>vs. v = QArray vs) \<or> (\<exists>kvs. v = QObject kvs)"
    and "body_fault a = None" and "\<not> general_exceeded a" and "\<not> blacklist_exceeded a"
    and "s = snd (run app history initial_state)"
  shows "serve app a s =
           (Answered \<lparr>status = 500,
              body = JObject [(js ''error'', JString (js ''Internal server error'')),
                              (js ''message'', JString (js ''name.toLowerCase is not a function''))]\<rparr>,
            s\<lparr>uptime_ns := uptime_ns s + elapsed_ns a, stderr := stderr s @ [trace a]\<rparr>)"
proof -
  have "blacklist_array s = blacklistedNames"
    using assms(1,9) by (simp add: reachable_blacklist)
  then have ne: "blacklist_array s \<noteq> []"
    by (simp add: blacklistedNames_def)
  have "\<And>n. v \<noteq> QString n" "truthy v"
    using assms(5) by auto
  then show ?thesis
    using assms(4) ne
    by (simp add: serve_blacklisted_route[OF assms(1,2,3,6,7,8)] blacklisted_def
        some_equal_other error_handler_def)
qed

text \<open>A repeated key: \<open>?name=John%20Smith&name=Jane%20Doe\<close>.\<close>

theorem blacklisted_with_non_string_name_witness:
  "query (req (plain_arrival GET ''/blacklisted''
                 [js ''name'' \<mapsto> QArray [QString (js ''John Smith''), QString (js ''Jane Doe'')]]
                 1762177649824)) (js ''name'')
     = Some (QArray [QString (js ''John Smith''), QString (js ''Jane Doe'')])
   \<and> fst (serve (app_full sample_platform)
             (plain_arrival GET ''/blacklisted''
                [js ''name'' \<mapsto> QArray [QString (js ''John Smith''), QString (js ''Jane Doe'')]]
                1762177649824)
             initial_state) =
        Answered \<lparr>status = 500,
          body = JObject [(js ''error'', JString (js ''Internal server error'')),
                          (js ''message'', JString (js ''name.toLowerCase is not a function''))]\<rparr>"
  using blacklisted_with_non_string_name[of "app_full sample_platform" sample_platform
      "plain_arrival GET ''/blacklisted''
         [js ''name'' \<mapsto> QArray [QString (js ''John Smith''), QString (js ''Jane Doe'')]]
         1762177649824"
      "QArray [QString (js ''John Smith''), QString (js ''Jane Doe'')]" initial_state "[]"]
  by (simp add: plain_arrival_def)

section \<open>The health check\<close>

text \<open>
  C6. A GET request to \<open>/health\<close>, with its body accepted and under the general rate
  limit, is answered with status 200 and a body of four fields: \<open>status\<close>, the text
  \<open>healthy\<close>; \<open>timestamp\<close>, the wall clock as \<open>toISOString\<close> writes it, which for a clock
  between 1970 and the end of the year 9999 is an ISO-8601 UTC instant with millisecond
  precision; \<open>uptime\<close>, the seconds on the monotonic clock of the process, which are not
  negative and, in a later call of the same process, not smaller; and \<open>service\<close>, the
  text \<open>blacklisted-mock-api-server\<close>.
\<close>

theorem health_check:
  assumes "app = app_full pf \<or> app = app_minimal pf"
    and "verb (req a1) = GET" and "path (req a1) = js ''/health''"
    and "body_fault a1 = None" and "\<not> general_exceeded a1"
    and "verb (req a2) = GET" and "path (req a2) = js ''/health''"
    and "body_fault a2 = None" and "\<not> general_exceeded a2"
    and "0 \<le> date_now a1" and "date_now a1 < 253402300800000"
    and "s1 = snd (run app before initial_state)"
    and "s2 = snd (run app between (snd (serve app a1 s1)))"
    and "u1 = real (uptime_ns s1 + elapsed_ns a1) / 10 ^ 9"
    and "u2 = real (uptime_ns s2 + elapsed_ns a2) / 10 ^ 9"
  shows "fst (serve app a1 s1) =
           Answered \<lparr>status = 200,
             body = JObject [(js ''status'', JString (js ''healthy'')),
                             (js ''timestamp'', JString (toISOString (date_now a1))),
                             (js ''uptime'', JNumber u1),
                             (js ''service'', JString (js ''blacklisted-mock-api-server''))]\<rparr>
       \<and> fst (serve app a2 s2) =
           Answered \<lparr>status = 200,
             body = JObject [(js ''status'', JString (js ''healthy'')),
                             (js ''timestamp'', JString (toISOString (date_now a2))),
                             (js ''uptime'', JNumber u2),
                             (js ''service'', JString (js ''blacklisted-mock-api-server''))]\<rparr>
       \<and> iso_instant (toISOString (date_now a1))
       \<and> 0 \<le> u1 \<and> u1 \<le> u2"
proof -
  have "uptime_ns s1 + elapsed_ns a1 = uptime_ns (snd (serve app a1 s1))"
    using assms(1) by (simp add: serve_uptime)
  also have "\<dots> \<le> uptime_ns s2"
    unfolding assms(13) using assms(1) by (rule run_uptime)
  finally have "uptime_ns s1 + elapsed_ns a1 \<le> uptime_ns s2 + elapsed_ns a2"
    by simp
  then have "u1 \<le> u2"
    unfolding assms(14,15) by (simp add: divide_right_mono)
  moreover have "0 \<le> u1"
    unfolding assms(14) by simp
  moreover have "iso_instant (toISOString (date_now a1))"
    using assms(10,11) by (rule toISOString_valid)
  ultimately show ?thesis
    unfolding assms(14,15)
    using health_route[OF assms(1-5), of s1] health_route[OF assms(1) assms(6-9), of s2]
    by simp
qed

text \<open>Two health checks with a listing between them, 1.5 seconds apart each.\<close>

theorem health_check_witness:
  "iso_instant (js ''2025-11-03T13:47:29.824Z'')
   \<and> fst (serve (app_full sample_platform) (plain_arrival GET ''/health'' Map.empty 1762177649824)
           initial_state) =
       Answered \<lparr>status = 200,
         body = JObject [(js ''status'', JString (js ''healthy'')),
                         (js ''timestamp'', JString (js ''2025-11-03T13:47:29.824Z'')),
                         (js ''uptime'', JNumber 1.5),
                         (js ''service'', JString (js ''blacklisted-mock-api-server''))]\<rparr>
   \<and> fst (serve (app_full sample_platform) (plain_arrival GET ''/health'' Map.empty 1762177649824)
           (snd (run (app_full sample_platform)
                  [plain_arrival GET ''/blacklisted'' Map.empty 1762177649824]
                  (snd (serve (app_full sample_platform)
                         (plain_arrival GET ''/health'' Map.empty 1762177649824) initial_state))))) =
       Answered \<lparr>status = 200,
         body = JObject [(js ''status'', JString (js ''healthy'')),
                         (js ''timestamp'', JString (js ''2025-11-03T13:47:29.824Z'')),
                         (js ''uptime'', JNumber 4.5),
                         (js ''service'', JString (js ''blacklisted-mock-api-server''))]\<rparr>"
proof -
  let ?app = "app_full sample_platform"
  let ?h = "plain_arrival GET ''/health'' Map.empty 1762177649824"
  let ?between = "[plain_arrival GET ''/blacklisted'' Map.empty 1762177649824]"
  let ?s2 = "snd (run ?app ?between (snd (serve ?app ?h initial_state)))"
  have up: "uptime_ns ?s2 = 3000000000"
    by (simp add: serve_uptime[of ?app sample_platform] split_beta)
       (simp add: plain_arrival_def initial_state_def)
  show ?thesis
    using health_check[of ?app sample_platform ?h ?h initial_state "[]" ?s2 ?between
        "real (uptime_ns initial_state + elapsed_ns ?h) / 10 ^ 9"
        "real (uptime_ns ?s2 + elapsed_ns ?h) / 10 ^ 9"]
    unfolding up
    by (simp add: plain_arrival_def initial_state_def timestamp_first)
qed

section \<open>Determinism\<close>

text \<open>
  C8, as stated, fails: two GET requests to \<open>/health\<close> with the same method, path and
  query, one second apart in one process, get different responses; the timestamp and
  the uptime differ.
\<close>

theorem health_reports_the_clock:
  "req (plain_arrival GET ''/health'' Map.empty 1762177649824)
     = req (plain_arrival GET ''/health'' Map.empty 1762177650824)
   \<and> fst (run (app_minimal sample_platform)
            [plain_arrival GET ''/health'' Map.empty 1762177649824,
             plain_arrival GET ''/health'' Map.empty 1762177650824] initial_state) =
       [Answered \<lparr>status = 200,
          body = JObject [(js ''status'', JString (js ''healthy'')),
                          (js ''timestamp'', JString (js ''2025-11-03T13:47:29.824Z'')),
                          (js ''uptime'', JNumber 1.5),
                          (js ''service'', JString (js ''blacklisted-mock-api-server''))]\<rparr>,
        Answered \<lparr>status = 200,
          body = JObject [(js ''status'', JString (js ''healthy'')),
                          (js ''timestamp'', JString (js ''2025-11-03T13:47:30.824Z'')),
                          (js ''uptime'', JNumber 3),
                          (js ''service'', JString (js ''blacklisted-mock-api-server''))]\<rparr>]
   \<and> fst (run (app_minimal sample_platform)
            [plain_arrival GET ''/health'' Map.empty 1762177649824,
             plain_arrival GET ''/health'' Map.empty 1762177650824] initial_state) ! 0
     \<noteq> fst (run (app_minimal sample_platform)
            [plain_arrival GET ''/health'' Map.empty 1762177649824,
             plain_arrival GET ''/health'' Map.empty 1762177650824] initial_state) ! 1"
proof -
  have outs: "fst (run (app_minimal sample_platform)
            [plain_arrival GET ''/health'' Map.empty 1762177649824,
             plain_arrival GET ''/health'' Map.empty 1762177650824] initial_state) =
       [Answered \<lparr>status = 200,
          body = JObject [(js ''status'', JString (js ''healthy'')),
                          (js ''timestamp'', JString (js ''2025-11-03T13:47:29.824Z'')),
                          (js ''uptime'', JNumber 1.5),
                          (js ''service'', JString (js ''blacklisted-mock-api-server''))]\<rparr>,
        Answered \<lparr>status = 200,
          body = JObject [(js ''status'', JString (js ''healthy'')),
                          (js ''timestamp'', JString (js ''2025-11-03T13:47:30.824Z'')),
                          (js ''uptime'', JNumber 3),
                          (js ''service'', JString (js ''blacklisted-mock-api-server''))]\<rparr>]"
    by (simp add: plain_arrival_def serve_def app_minimal_def express_json_def health_def
        handles_get_def path_is_def initial_state_def timestamp_first timestamp_second)
  show ?thesis
    unfolding outs by (simp add: plain_arrival_def)
qed

text \<open>
  C8, amended. Two requests with the same method, path and query, on which the body
  parser and the rate limiters give the same verdicts, and which are not GET or HEAD
  requests to \<open>/health\<close>, get the same response, whatever the clocks read and whatever
  requests either process served before.
\<close>

theorem same_request_same_response:
  assumes "app = app_full pf \<or> app = app_minimal pf"
    and "req a2 = req a1" and "body_fault a2 = body_fault a1"
    and "general_exceeded a2 = general_exceeded a1"
    and "blacklist_exceeded a2 = blacklist_exceeded a1"
    and "\<not> (handles_get (verb (req a1)) \<and> path_is ''/health'' (path (req a1)))"
  shows "fst (serve app a1 (snd (run app before1 initial_state)))
       = fst (serve app a2 (snd (run app before2 initial_state)))"
proof -
  let ?s1 = "snd (run app before1 initial_state)" and ?s2 = "snd (run app before2 initial_state)"
  have "blacklist_array ?s2 = blacklist_array ?s1"
    using assms(1) by (simp add: reachable_blacklist)
  then have same: "blacklist_array (?s2\<lparr>uptime_ns := uptime_ns ?s2 + elapsed_ns a2\<rparr>)
                 = blacklist_array (?s1\<lparr>uptime_ns := uptime_ns ?s1 + elapsed_ns a1\<rparr>)"
    by simp
  from assms(1) show ?thesis
  proof
    assume "app = app_full pf"
    then show ?thesis
      unfolding serve_def using full_determined[OF assms(2-5) same assms(6)] by simp
  next
    assume "app = app_minimal pf"
    then show ?thesis
      unfolding serve_def using minimal_determined[OF assms(2,3) same assms(6)] by simp
  qed
qed

text \<open>The same lookup at start-up and, years later, after two other requests.\<close>

theorem same_request_same_response_witness:
  "fst (serve (app_full sample_platform)
         (plain_arrival GET ''/blacklisted'' [js ''name'' \<mapsto> QString (js ''Lisa Garcia'')] 1762177649824)
         (snd (run (app_full sample_platform) [] initial_state)))
   = fst (serve (app_full sample_platform)
         (plain_arrival GET ''/blacklisted'' [js ''name'' \<mapsto> QString (js ''Lisa Garcia'')] 1893456000000)
         (snd (run (app_full sample_platform)
                [plain_arrival GET ''/health'' Map.empty 1762177650000,
                 plain_arrival PUT ''/blacklisted'' Map.empty 1762177651000] initial_state)))"
proof -
  have "\<not> path_is ''/health'' (js ''/blacklisted'')"
    by (simp add: path_is_def js_def lower_unit_def)
  then show ?thesis
    using same_request_same_response[of "app_full sample_platform" sample_platform
        "plain_arrival GET ''/blacklisted'' [js ''name'' \<mapsto> QString (js ''Lisa Garcia'')] 1893456000000"
        "plain_arrival GET ''/blacklisted'' [js ''name'' \<mapsto> QString (js ''Lisa Garcia'')] 1762177649824"
        "[]"
        "[plain_arrival GET ''/health'' Map.empty 1762177650000,
          plain_arrival PUT ''/blacklisted'' Map.empty 1762177651000]"]
    by (simp add: plain_arrival_def)
qed

end
